theory Spec2Isabelle
  imports Complex_Main "HOL-Library.Log_Nat"
begin

section \<open>ExamAi backend: submissions and the grading heuristics of \<open>main.py\<close>\<close>

text \<open>
  The development embeds the two endpoints \<open>create_submission\<close> and
  \<open>grade_submission\<close> of \<open>main.py\<close>. Python values are modelled as follows.
  \<^item> \<open>int\<close> is the unbounded integer type \<^typ>\<open>int\<close>.
  \<^item> A finite \<open>float\<close> is the rational number it denotes exactly; every float
    operation of the source is the exact operation followed by \<open>fl\<close>, rounding to the
    nearest binary64 value with ties to even, subnormal values included. The upper end of
    the exponent range is not modelled: a magnitude of \<open>2 ^ 1024\<close> or more, where CPython
    raises \<open>OverflowError\<close> or yields an infinity, is outside the scope of the model and
    is rounded like any other number.
  \<^item> \<open>str\<close> is \<^typ>\<open>string\<close>, each character read as the code point of the same
    number (0 to 255).
  \<^item> A value of type \<open>Any\<close> is a \<open>pyval\<close>, the values a JSON body can carry.
\<close>

subsection \<open>Floats\<close>

text \<open>\<open>round(x)\<close> of Python on the exact value \<open>x\<close>: nearest integer, ties to even.\<close>

definition round_half_even :: "rat \<Rightarrow> int" where
  "round_half_even x =
     (let f = \<lfloor>x\<rfloor>; d = x - of_int f
      in if d < 1 / 2 then f else if 1 / 2 < d then f + 1 else if even f then f else f + 1)"

text \<open>The binary exponent of a positive rational: \<open>2 powi flog2 x \<le> x < 2 powi (flog2 x + 1)\<close>.\<close>

definition flog2 :: "rat \<Rightarrow> int" where
  "flog2 x =
     (let (p, d) = quotient_of x; e = bitlen p - bitlen d
      in if 2 powi e \<le> x then e else e - 1)"

text \<open>
  The spacing of binary64 values around \<open>x\<close>: 53 significant bits, and the fixed spacing
  \<open>2 powi - 1074\<close> of the subnormal range below \<open>2 powi - 1022\<close>.
\<close>

definition fexp :: "rat \<Rightarrow> int" where
  "fexp x = max (flog2 \<bar>x\<bar>) (- 1022)"

definition ulp :: "rat \<Rightarrow> rat" where
  "ulp x = 2 powi (fexp x - 52)"

definition fl :: "rat \<Rightarrow> rat" where
  "fl x = of_int (round_half_even (x / ulp x)) * ulp x"

text \<open>\<open>round(x, 2)\<close>: the exact value is rounded to two decimals, ties to even, and the
  decimal is read back as a float.\<close>

definition round2 :: "rat \<Rightarrow> rat" where
  "round2 x = fl (of_int (round_half_even (x * 100)) / 100)"

text \<open>\<open>n * c\<close> and \<open>n / c\<close> for an \<open>int\<close> \<open>n\<close> and a float \<open>c\<close> convert \<open>n\<close> to a
  float first; \<open>a / b\<close> for two \<open>int\<close>s is the correctly rounded quotient.\<close>

definition int_mul_float :: "int \<Rightarrow> rat \<Rightarrow> rat" where
  "int_mul_float n c = fl (fl (of_int n) * c)"

definition int_div_float :: "int \<Rightarrow> rat \<Rightarrow> rat" where
  "int_div_float n c = fl (fl (of_int n) / c)"

definition int_truediv :: "int \<Rightarrow> int \<Rightarrow> rat" where
  "int_truediv a b = fl (of_int a / of_int b)"

definition float_mul :: "rat \<Rightarrow> rat \<Rightarrow> rat" where
  "float_mul a b = fl (a * b)"

subsection \<open>Strings\<close>

definition py_lower_char :: "char \<Rightarrow> char" where
  "py_lower_char c =
     (let n = (of_char c :: nat)
      in if (65 \<le> n \<and> n \<le> 90) \<or> (192 \<le> n \<and> n \<le> 222 \<and> n \<noteq> 215)
         then char_of (n + 32) else c)"

definition py_lower :: "string \<Rightarrow> string" where
  "py_lower s = map py_lower_char s"

definition py_isspace :: "char \<Rightarrow> bool" where
  "py_isspace c =
     (let n = (of_char c :: nat)
      in (9 \<le> n \<and> n \<le> 13) \<or> (28 \<le> n \<and> n \<le> 32) \<or> n = 133 \<or> n = 160)"

text \<open>\<open>s.split()\<close>: the maximal runs of non-whitespace characters, in order. The first
  argument is the word read so far.\<close>

fun split_from :: "string \<Rightarrow> string \<Rightarrow> string list" where
  "split_from w [] = (if w = [] then [] else [w])"
| "split_from w (c # cs) =
     (if py_isspace c then (if w = [] then split_from [] cs else w # split_from [] cs)
      else split_from (w @ [c]) cs)"

definition py_split :: "string \<Rightarrow> string list" where
  "py_split s = split_from [] s"

text \<open>\<open>str(n)\<close> for an \<open>int\<close>: decimal digits, with a minus sign when negative.\<close>

fun str_nat :: "nat \<Rightarrow> string" where
  "str_nat n = (if n < 10 then [char_of (48 + n)] else str_nat (n div 10) @ [char_of (48 + n mod 10)])"

definition str_int :: "int \<Rightarrow> string" where
  "str_int i = (if i < 0 then CHR ''-'' # str_nat (nat (- i)) else str_nat (nat i))"

subsection \<open>Values of type \<open>Any\<close>\<close>

datatype pyfloat = Finite rat | PosInf | NegInf | NaN

datatype pyval =
    PNone
  | PBool bool
  | PInt int
  | PFloat pyfloat
  | PStr string
  | PList "pyval list"
  | PDict "(string \<times> pyval) list"

text \<open>The numeric value of a \<open>bool\<close>, \<open>int\<close> or \<open>float\<close>; \<open>None\<close> for every other value.\<close>

fun py_number :: "pyval \<Rightarrow> pyfloat option" where
  "py_number (PBool b) = Some (Finite (if b then 1 else 0))"
| "py_number (PInt i) = Some (Finite (of_int i))"
| "py_number (PFloat f) = Some f"
| "py_number _ = None"

text \<open>
  \<open>a == b\<close> on these values: numbers compare by value across \<open>bool\<close>, \<open>int\<close> and
  \<open>float\<close> (a NaN equals nothing), strings by content, lists element by element, dicts
  key by key; values of different kinds are unequal.
\<close>

fun py_eq :: "pyval \<Rightarrow> pyval \<Rightarrow> bool" where
  "py_eq PNone PNone = True"
| "py_eq (PStr s) (PStr t) = (s = t)"
| "py_eq (PList xs) (PList ys) = list_all2 py_eq xs ys"
| "py_eq (PDict a) (PDict b) =
     (length a = length b \<and>
      (\<forall>(k, v) \<in> set a. case map_of b k of None \<Rightarrow> False | Some w \<Rightarrow> py_eq v w))"
| "py_eq a b =
     (case (py_number a, py_number b) of
        (Some x, Some y) \<Rightarrow> x \<noteq> NaN \<and> x = y
      | _ \<Rightarrow> False)"

text \<open>
  \<open>str(v)\<close>. The text of a float, a list or a dict is produced by the interpreter's
  \<open>repr\<close>, which is taken as the parameter \<open>repr\<close>.
\<close>

fun py_str :: "(pyval \<Rightarrow> string) \<Rightarrow> pyval \<Rightarrow> string" where
  "py_str repr (PStr s) = s"
| "py_str repr PNone = ''None''"
| "py_str repr (PBool b) = (if b then ''True'' else ''False'')"
| "py_str repr (PInt i) = str_int i"
| "py_str repr v = repr v"

subsection \<open>Models\<close>

record question =
  prompt :: string
  type :: string
  options :: "string list option"
  answer_key :: pyval
  points :: int

record submission_answer =
  question_index :: int
  answer :: pyval

text \<open>One entry of \<open>feedback\<close>, the dict appended at the end of the loop body.\<close>

record feedback_item =
  fb_question_index :: nat
  fb_points :: int
  fb_earned :: int
  fb_correctness :: rat
  fb_feedback :: string

record grade_result =
  graded :: bool
  total_points :: int
  score :: rat
  feedback :: "feedback_item list"

subsection \<open>The grading loop of \<open>grade_submission\<close>\<close>

text \<open>\<open>next((a for a in answers if a.get("question_index") == i), None)\<close>\<close>

definition find_answer :: "submission_answer list \<Rightarrow> nat \<Rightarrow> submission_answer option" where
  "find_answer answers i = find (\<lambda>a. question_index a = int i) answers"

text \<open>The number of words shared by the prompt and the answer text.\<close>

definition word_overlap :: "(pyval \<Rightarrow> string) \<Rightarrow> question \<Rightarrow> submission_answer \<Rightarrow> nat" where
  "word_overlap repr q a =
     (let prompt_words = set (py_split (py_lower (prompt q)));
          ans_words = set (py_split (py_lower (py_str repr (answer a))))
      in card (prompt_words \<inter> ans_words))"

text \<open>
  The values of \<open>correctness\<close> and \<open>rationale\<close> at the end of the loop body for question
  \<open>q\<close>, given the result \<open>user_ans\<close> of the lookup. The literals \<open>0.6\<close> and \<open>0.3\<close>
  are the floats \<open>fl (3 / 5)\<close> and \<open>fl (3 / 10)\<close>; \<open>0.0\<close>, \<open>0.5\<close> and \<open>1.0\<close> are exact.
\<close>

definition assess ::
  "(pyval \<Rightarrow> string) \<Rightarrow> question \<Rightarrow> submission_answer option \<Rightarrow> rat \<times> string" where
  "assess repr q user_ans =
     (case user_ans of
        None \<Rightarrow> (1 / 2, ''Partial credit: baseline heuristic'')
      | Some a \<Rightarrow>
          if type q = ''multiple_choice'' then
            (let key = answer_key q
             in if key \<noteq> PNone \<and> py_eq (answer a) key then (1, ''Correct option'')
                else (0, ''Incorrect option''))
          else if type q = ''short_answer'' then
            (let overlap = word_overlap repr q a
             in (min 1 (int_div_float (int overlap) 5),
                 ''Keyword overlap score: '' @ str_nat overlap))
          else if type q = ''essay'' then
            (let length = length (py_str repr (answer a))
             in (if 200 < length then 1 else if 80 < length then fl (3 / 5) else fl (3 / 10),
                 ''Length heuristic: '' @ str_nat length @ '' chars''))
          else (1 / 2, ''Partial credit: baseline heuristic''))"

text \<open>The feedback entry of question \<open>q\<close> at index \<open>i\<close>.\<close>

definition grade_question ::
  "(pyval \<Rightarrow> string) \<Rightarrow> submission_answer list \<Rightarrow> nat \<Rightarrow> question \<Rightarrow> feedback_item" where
  "grade_question repr answers i q =
     (let (correctness, rationale) = assess repr q (find_answer answers i);
          pts = points q
      in \<lparr>fb_question_index = i,
          fb_points = pts,
          fb_earned = round_half_even (int_mul_float pts correctness),
          fb_correctness = round2 correctness,
          fb_feedback = rationale\<rparr>)"

text \<open>
  \<open>for i, q in enumerate(questions)\<close>: the loop from index \<open>i\<close> on, threading \<open>earned\<close>
  and the list \<open>feedback\<close> (here \<open>fb\<close>).
\<close>

fun grade_loop ::
  "(pyval \<Rightarrow> string) \<Rightarrow> submission_answer list \<Rightarrow> nat \<Rightarrow> question list \<Rightarrow>
   int \<times> feedback_item list \<Rightarrow> int \<times> feedback_item list" where
  "grade_loop repr answers i [] (earned, fb) = (earned, fb)"
| "grade_loop repr answers i (q # qs) (earned, fb) =
     (let item = grade_question repr answers i q
      in grade_loop repr answers (Suc i) qs (earned + fb_earned item, fb @ [item]))"

text \<open>Lines 228 to 268: from the two lists to the \<open>GradeResult\<close>.\<close>

definition grade ::
  "(pyval \<Rightarrow> string) \<Rightarrow> question list \<Rightarrow> submission_answer list \<Rightarrow> grade_result" where
  "grade repr questions answers =
     (let total_points = sum_list (map points questions);
          (earned, feedback) = grade_loop repr answers 0 questions (0, []);
          score = (if 0 < total_points
                   then round2 (float_mul (int_truediv earned total_points) 100)
                   else 0)
      in \<lparr>graded = True, total_points = total_points, score = score, feedback = feedback\<rparr>)"

text \<open>
  The concrete examples below need some \<open>repr\<close>; none of them applies it, since their
  answers are \<open>None\<close>, \<open>bool\<close>, \<open>int\<close> or \<open>str\<close> values.
\<close>

definition repr_any :: "pyval \<Rightarrow> string" where
  "repr_any v = ''<value>''"

subsection \<open>The document store and the endpoints\<close>

datatype error = HTTPException nat string | InvalidId string

text \<open>
  \<open>ObjectId(s)\<close> of the \<open>bson\<close> library: a string of 24 characters is read by
  \<open>bytes.fromhex\<close>, which takes pairs of hexadecimal digits and skips ASCII whitespace
  before a pair; anything else raises \<open>InvalidId\<close>. An identifier is the list of bytes.
\<close>

type_synonym oid = "nat list"

definition hex_value :: "char \<Rightarrow> nat option" where
  "hex_value c =
     (let n = (of_char c :: nat)
      in if 48 \<le> n \<and> n \<le> 57 then Some (n - 48)
         else if 97 \<le> n \<and> n \<le> 102 then Some (n - 87)
         else if 65 \<le> n \<and> n \<le> 70 then Some (n - 55)
         else None)"

definition ascii_space :: "char \<Rightarrow> bool" where
  "ascii_space c = (let n = (of_char c :: nat) in (9 \<le> n \<and> n \<le> 13) \<or> n = 32)"

fun fromhex :: "string \<Rightarrow> nat list option" where
  "fromhex [] = Some []"
| "fromhex [c] = (if ascii_space c then Some [] else None)"
| "fromhex (c # d # cs) =
     (if ascii_space c then fromhex (d # cs)
      else case (hex_value c, hex_value d) of
             (Some h, Some l) \<Rightarrow> map_option ((#) (16 * h + l)) (fromhex cs)
           | _ \<Rightarrow> None)"

definition ObjectId :: "string \<Rightarrow> error + oid" where
  "ObjectId s =
     (if length s = 24
      then (case fromhex s of Some b \<Rightarrow> Inr b | None \<Rightarrow> Inl (InvalidId s))
      else Inl (InvalidId s))"

text \<open>\<open>str(oid)\<close>: two lower-case hexadecimal digits for each byte.\<close>

definition hex_digit :: "nat \<Rightarrow> char" where
  "hex_digit n = (if n < 10 then char_of (48 + n) else char_of (87 + n))"

definition oid_str :: "oid \<Rightarrow> string" where
  "oid_str b = concat (map (\<lambda>n. [hex_digit (n div 16), hex_digit (n mod 16)]) b)"

record assessment_create =
  title :: string
  description :: "string option"
  source_type :: "string option"
  source_reference :: "string option"
  questions :: "question list"

record submission_create =
  assessment_id :: string
  student_name :: "string option"
  answers :: "submission_answer list"

text \<open>A stored submission: the payload, and the grade fields once \<open>$set\<close> has added them.\<close>

record submission_doc = submission_create +
  grading :: "grade_result option"

text \<open>
  Modelled from the spec: the module \<open>database\<close> (\<open>db\<close>, \<open>create_document\<close>) is not
  part of the sources. The spec describes it as opaque document persistence, with
  \<open>create_document(collection, data) -> id\<close> and find and update by id. A collection is
  the list of its documents with their identifiers, in insertion order.
\<close>

record store =
  assessment :: "(oid \<times> assessment_create) list"
  submission :: "(oid \<times> submission_doc) list"

text \<open>
  Modelled from the spec: \<open>create_document("submission", data)\<close> stores the document
  under the identifier \<open>new_id\<close> that the store assigns to it and returns that identifier
  as a string.
\<close>

definition create_document_submission ::
  "oid \<Rightarrow> submission_create \<Rightarrow> store \<Rightarrow> string \<times> store" where
  "create_document_submission new_id data db =
     (oid_str new_id,
      db\<lparr>submission := submission db @ [(new_id, submission_create.extend data \<lparr>grading = None\<rparr>)]\<rparr>)"

text \<open>Modelled from the spec: \<open>update_one({"_id": sid}, {"$set": ...})\<close> on submissions.\<close>

fun set_grading ::
  "oid \<Rightarrow> grade_result \<Rightarrow> (oid \<times> submission_doc) list \<Rightarrow> (oid \<times> submission_doc) list" where
  "set_grading sid r [] = []"
| "set_grading sid r ((k, d) # ds) =
     (if k = sid then (k, d\<lparr>grading := Some r\<rparr>) # ds else (k, d) # set_grading sid r ds)"

text \<open>
  \<open>create_submission\<close>. The result pairs what the endpoint returns or raises with the
  store it leaves behind; the response is the new identifier and the payload.
\<close>

definition create_submission ::
  "oid \<Rightarrow> submission_create \<Rightarrow> store \<Rightarrow> (error + string \<times> submission_create) \<times> store" where
  "create_submission new_id payload db =
     (case ObjectId (assessment_id payload) of
        Inl e \<Rightarrow> (Inl e, db)
      | Inr aid \<Rightarrow>
          (case map_of (assessment db) aid of
             None \<Rightarrow> (Inl (HTTPException 404 ''Assessment not found''), db)
           | Some a \<Rightarrow>
               (let data = payload;
                    (inserted_id, db') = create_document_submission new_id data db
                in (Inr (inserted_id, data), db'))))"

text \<open>\<open>grade_submission\<close>: both lookups, the grading loop, and the write of the result.\<close>

definition grade_submission ::
  "(pyval \<Rightarrow> string) \<Rightarrow> string \<Rightarrow> store \<Rightarrow> (error + grade_result) \<times> store" where
  "grade_submission repr submission_id db =
     (case ObjectId submission_id of
        Inl e \<Rightarrow> (Inl e, db)
      | Inr sid \<Rightarrow>
          (case map_of (submission db) sid of
             None \<Rightarrow> (Inl (HTTPException 404 ''Submission not found''), db)
           | Some sub \<Rightarrow>
               (case ObjectId (assessment_id sub) of
                  Inl e \<Rightarrow> (Inl e, db)
                | Inr aid \<Rightarrow>
                    (case map_of (assessment db) aid of
                       None \<Rightarrow>
                         (Inl (HTTPException 404 ''Assessment not found for submission''), db)
                     | Some a \<Rightarrow>
                         (let r = grade repr (questions a) (answers sub)
                          in (Inr r, db\<lparr>submission := set_grading sid r (submission db)\<rparr>))))))"

text \<open>
  The three questions that \<open>create_assessment_from_upload\<close> builds for the uploaded
  file named \<open>filename\<close>; they serve as the concrete assessment of the examples.
\<close>

definition fake_questions :: "string \<Rightarrow> question list" where
  "fake_questions filename =
     [\<lparr>prompt = ''Describe the main concept from '' @ filename @ ''.'',
       type = ''short_answer'', options = None, answer_key = PNone, points = 5\<rparr>,
      \<lparr>prompt = ''Which option best matches the definition?'',
       type = ''multiple_choice'',
       options = Some [''Option A'', ''Option B'', ''Option C'', ''Option D''],
       answer_key = PInt 1, points = 3\<rparr>,
      \<lparr>prompt = ''Write a short essay explaining the implications.'',
       type = ''essay'', options = None, answer_key = PNone, points = 10\<rparr>]"

section \<open>Properties of the float model\<close>

subsection \<open>Rounding to an integer\<close>

lemma round_half_even_of_int: "round_half_even (of_int n) = n"
  by (simp add: round_half_even_def)

lemma round_half_even_range:
  "\<lfloor>x\<rfloor> \<le> round_half_even x \<and> round_half_even x \<le> \<lfloor>x\<rfloor> + 1"
  by (simp add: round_half_even_def Let_def)

lemma round_half_even_floor_eq:
  assumes "\<lfloor>x\<rfloor> = \<lfloor>y\<rfloor>" "x \<le> y"
  shows "round_half_even x \<le> round_half_even y"
  using assms by (auto simp: round_half_even_def Let_def)

lemma round_half_even_mono:
  assumes "x \<le> y"
  shows "round_half_even x \<le> round_half_even y"
proof (cases "\<lfloor>x\<rfloor> = \<lfloor>y\<rfloor>")
  case True
  then show ?thesis using assms by (rule round_half_even_floor_eq)
next
  case False
  with assms have "\<lfloor>x\<rfloor> < \<lfloor>y\<rfloor>"
    using floor_mono [of x y] by linarith
  then show ?thesis
    using round_half_even_range [of x] round_half_even_range [of y] by linarith
qed

lemma round_half_even_ge: "of_int a \<le> x \<Longrightarrow> a \<le> round_half_even x"
  using round_half_even_mono [of "of_int a" x] by (simp add: round_half_even_of_int)

lemma round_half_even_le: "x \<le> of_int b \<Longrightarrow> round_half_even x \<le> b"
  using round_half_even_mono [of x "of_int b"] by (simp add: round_half_even_of_int)

lemma round_half_even_near: "\<bar>of_int (round_half_even y) - y\<bar> \<le> 1 / 2"
proof -
  have "of_int \<lfloor>y\<rfloor> \<le> y" "y < of_int \<lfloor>y\<rfloor> + 1" by linarith+
  then show ?thesis by (auto simp: round_half_even_def Let_def abs_le_iff)
qed

lemma round_half_even_half:
  "round_half_even (of_int n / 2) = n div 2 + (if n mod 4 = 3 then 1 else 0)"
proof (cases "even n")
  case True
  then obtain m where n: "n = 2 * m" by (auto elim: evenE)
  have "round_half_even (of_int n / 2) = m"
    using round_half_even_of_int [of m] by (simp add: n)
  moreover have "n mod 4 \<noteq> 3" using n by presburger
  ultimately show ?thesis by (simp add: n)
next
  case False
  then obtain m where n: "n = 2 * m + 1" by (auto elim: oddE)
  have x: "(of_int n :: rat) / 2 = of_int m + 1 / 2" by (simp add: n add_divide_distrib)
  have f: "\<lfloor>(of_int m :: rat) + 1 / 2\<rfloor> = m" by (simp add: floor_unique)
  have r: "round_half_even (of_int n / 2) = (if even m then m else m + 1)"
    unfolding x by (simp add: round_half_even_def f Let_def)
  have d: "n div 2 = m" using n by simp
  have "n mod 4 = 3 \<longleftrightarrow> odd m" using n by presburger
  then show ?thesis unfolding r d by simp
qed

subsection \<open>The binary exponent\<close>

lemma bitlen_powi_bounds:
  assumes "0 < p"
  shows "(2::rat) powi (bitlen p - 1) \<le> of_int p" "of_int p < (2::rat) powi bitlen p"
proof -
  from assms have b: "1 \<le> bitlen p" by (auto simp: bitlen_alt_def)
  from bitlen_bounds [OF assms]
  have l: "2 ^ nat (bitlen p - 1) \<le> p" and u: "p < 2 ^ nat (bitlen p)" by auto
  have "(2::rat) powi (bitlen p - 1) = 2 ^ nat (bitlen p - 1)"
    using b by (simp add: power_int_nonneg_exp)
  also have "\<dots> = of_int (2 ^ nat (bitlen p - 1))" by simp
  also have "\<dots> \<le> of_int p" using l by (simp only: of_int_le_iff)
  finally show "(2::rat) powi (bitlen p - 1) \<le> of_int p" .
  have "(of_int p :: rat) < of_int (2 ^ nat (bitlen p))" using u by (simp only: of_int_less_iff)
  also have "\<dots> = 2 ^ nat (bitlen p)" by simp
  also have "\<dots> = (2::rat) powi bitlen p"
    using b by (simp add: power_int_nonneg_exp)
  finally show "of_int p < (2::rat) powi bitlen p" .
qed

lemma flog2_bounds:
  assumes "0 < x"
  shows "2 powi flog2 x \<le> x" "x < 2 powi (flog2 x + 1)"
proof -
  obtain p d where q: "quotient_of x = (p, d)" by force
  have d: "0 < d" using quotient_of_denom_pos [OF q] .
  have x: "x = of_int p / of_int d" using quotient_of_div [OF q] .
  have p: "0 < p" using assms d x by (simp add: zero_less_divide_iff)
  define e where "e = bitlen p - bitlen d"
  have dr: "(0::rat) < of_int d" using d by simp
  have lo: "(2::rat) powi (e - 1) \<le> x"
  proof -
    have "(2::rat) powi (e - 1) * of_int d \<le> 2 powi (e - 1) * 2 powi bitlen d"
      using bitlen_powi_bounds(2) [OF d] by (intro mult_left_mono) auto
    also have "\<dots> = 2 powi (bitlen p - 1)"
      by (simp add: e_def flip: power_int_add)
    also have "\<dots> \<le> of_int p" using bitlen_powi_bounds(1) [OF p] .
    finally show ?thesis using dr by (simp add: x pos_le_divide_eq)
  qed
  have hi: "x < (2::rat) powi (e + 1)"
  proof -
    have "of_int p < (2::rat) powi bitlen p" using bitlen_powi_bounds(2) [OF p] .
    also have "\<dots> = 2 powi (e + 1) * 2 powi (bitlen d - 1)"
      by (simp add: e_def flip: power_int_add)
    also have "\<dots> \<le> 2 powi (e + 1) * of_int d"
      using bitlen_powi_bounds(1) [OF d] by (intro mult_left_mono) auto
    finally show ?thesis using dr by (simp add: x pos_divide_less_eq)
  qed
  have f: "flog2 x = (if 2 powi e \<le> x then e else e - 1)"
    by (simp add: flog2_def q e_def Let_def)
  show "2 powi flog2 x \<le> x" using lo by (simp add: f)
  show "x < 2 powi (flog2 x + 1)" using hi by (auto simp: f not_le)
qed

lemma flog2_unique:
  assumes "0 < x" "2 powi e \<le> x" "x < 2 powi (e + 1)"
  shows "flog2 x = e"
proof -
  have "(2::rat) powi e < 2 powi (flog2 x + 1)"
    using assms(2) flog2_bounds(2) [OF assms(1)] by simp
  then have a: "e < flog2 x + 1"
    by (metis power_int_increasing not_less one_le_numeral)
  have "(2::rat) powi flog2 x < 2 powi (e + 1)"
    using assms(3) flog2_bounds(1) [OF assms(1)] by simp
  then have b: "flog2 x < e + 1"
    by (metis power_int_increasing not_less one_le_numeral)
  from a b show ?thesis by simp
qed

lemma flog2_mono:
  assumes "0 < x" "x \<le> y"
  shows "flog2 x \<le> flog2 y"
proof -
  have y: "0 < y" using assms by simp
  have "(2::rat) powi flog2 x < 2 powi (flog2 y + 1)"
    using flog2_bounds(1) [OF assms(1)] flog2_bounds(2) [OF y] assms(2) by simp
  then have "flog2 x < flog2 y + 1"
    by (metis power_int_increasing not_less one_le_numeral)
  then show ?thesis by simp
qed

subsection \<open>Rounding to a float\<close>

lemma ulp_pos: "0 < ulp x"
  by (simp add: ulp_def)

lemma fl_zero: "fl 0 = 0"
  by (simp add: fl_def round_half_even_def)

lemma fl_nonneg:
  assumes "0 \<le> x"
  shows "0 \<le> fl x"
proof -
  have "0 \<le> x / ulp x" using assms ulp_pos [of x] by simp
  then have "0 \<le> round_half_even (x / ulp x)"
    using round_half_even_ge [of 0 "x / ulp x"] by simp
  then show ?thesis using ulp_pos [of x] by (simp add: fl_def)
qed

lemma fexp_upper:
  assumes "0 < x"
  shows "x < 2 powi (fexp x + 1)"
proof -
  have "x < 2 powi (flog2 x + 1)" using flog2_bounds(2) [OF assms] .
  also have "\<dots> \<le> 2 powi (fexp x + 1)"
    using assms by (intro power_int_increasing) (auto simp: fexp_def)
  finally show ?thesis .
qed

lemma fexp_lower:
  assumes "0 < x" "- 1022 < fexp x"
  shows "2 powi fexp x \<le> x"
proof -
  from assms have "fexp x = flog2 x" by (auto simp: fexp_def max_def split: if_splits)
  then show ?thesis using flog2_bounds(1) [OF assms(1)] by simp
qed

lemma fexp_mono:
  assumes "0 < x" "x \<le> y"
  shows "fexp x \<le> fexp y"
  using flog2_mono [OF assms] assms by (auto simp: fexp_def)

lemma fl_upper:
  assumes "0 < x"
  shows "fl x \<le> 2 powi (fexp x + 1)"
proof -
  have "x / ulp x \<le> 2 powi (fexp x + 1) / ulp x"
    using fexp_upper [OF assms] ulp_pos [of x] by (simp add: divide_le_cancel)
  also have "2 powi (fexp x + 1) / ulp x = (2::rat) powi 53"
    by (simp add: ulp_def flip: power_int_diff)
  also have "\<dots> = of_int (2 ^ 53)" by simp
  finally have "round_half_even (x / ulp x) \<le> 2 ^ 53" by (rule round_half_even_le)
  then have "(of_int (round_half_even (x / ulp x)) :: rat) \<le> of_int (2 ^ 53)"
    by (simp only: of_int_le_iff)
  then have "fl x \<le> of_int (2 ^ 53) * ulp x"
    unfolding fl_def using ulp_pos [of x] by (intro mult_right_mono) auto
  also have "of_int (2 ^ 53) * ulp x = (2::rat) powi 53 * 2 powi (fexp x - 52)"
    by (simp add: ulp_def)
  also have "\<dots> = 2 powi (53 + (fexp x - 52))"
    by (rule power_int_add [symmetric]) simp
  also have "53 + (fexp x - 52) = fexp x + 1" by simp
  finally show ?thesis .
qed

lemma fl_lower:
  assumes "0 < x" "- 1022 < fexp x"
  shows "2 powi fexp x \<le> fl x"
proof -
  have "2 powi fexp x / ulp x \<le> x / ulp x"
    using fexp_lower [OF assms] ulp_pos [of x] by (simp add: divide_le_cancel)
  moreover have "2 powi fexp x / ulp x = (2::rat) powi 52"
    by (simp add: ulp_def flip: power_int_diff)
  moreover have "(2::rat) powi 52 = of_int (2 ^ 52)" by simp
  ultimately have "of_int (2 ^ 52) \<le> x / ulp x" by simp
  then have "2 ^ 52 \<le> round_half_even (x / ulp x)" by (rule round_half_even_ge)
  then have "(of_int (2 ^ 52) :: rat) \<le> of_int (round_half_even (x / ulp x))"
    by (simp only: of_int_le_iff)
  then have "of_int (2 ^ 52) * ulp x \<le> fl x"
    unfolding fl_def using ulp_pos [of x] by (intro mult_right_mono) auto
  moreover have "of_int (2 ^ 52) * ulp x = (2::rat) powi 52 * 2 powi (fexp x - 52)"
    by (simp add: ulp_def)
  moreover have "(2::rat) powi 52 * 2 powi (fexp x - 52) = 2 powi (52 + (fexp x - 52))"
    by (rule power_int_add [symmetric]) simp
  moreover have "52 + (fexp x - 52) = fexp x" by simp
  ultimately show ?thesis by simp
qed

lemma fl_mono_pos:
  assumes "0 < x" "x \<le> y"
  shows "fl x \<le> fl y"
proof (cases "fexp x = fexp y")
  case True
  then have u: "ulp x = ulp y" by (simp add: ulp_def)
  have "x / ulp y \<le> y / ulp y"
    using assms(2) ulp_pos [of y] by (simp add: divide_le_cancel)
  then have "round_half_even (x / ulp y) \<le> round_half_even (y / ulp y)"
    by (rule round_half_even_mono)
  then have "(of_int (round_half_even (x / ulp y)) :: rat) \<le> of_int (round_half_even (y / ulp y))"
    by (simp only: of_int_le_iff)
  then show ?thesis
    unfolding fl_def u using ulp_pos [of y] by (intro mult_right_mono) auto
next
  case False
  have y: "0 < y" using assms by simp
  from False fexp_mono [OF assms] have lt: "fexp x < fexp y" by simp
  have "- 1022 \<le> fexp x" by (simp add: fexp_def)
  with lt have "- 1022 < fexp y" by simp
  have "fl x \<le> 2 powi (fexp x + 1)" using fl_upper [OF assms(1)] .
  also have "\<dots> \<le> 2 powi fexp y"
    using lt by (intro power_int_increasing) auto
  also have "\<dots> \<le> fl y" using fl_lower [OF y \<open>- 1022 < fexp y\<close>] .
  finally show ?thesis .
qed

lemma fl_mono:
  assumes "0 \<le> x" "x \<le> y"
  shows "fl x \<le> fl y"
proof (cases "x = 0")
  case True
  then show ?thesis using assms fl_nonneg [of y] by (simp add: fl_zero)
next
  case False
  with assms have "0 < x" by simp
  then show ?thesis using assms(2) by (rule fl_mono_pos)
qed

text \<open>Integers up to \<open>2 ^ 53\<close> are floats.\<close>

lemma fl_of_int:
  assumes "0 \<le> n" "n \<le> 2 ^ 53"
  shows "fl (of_int n) = of_int n"
proof (cases "n = 0")
  case True
  then show ?thesis by (simp add: fl_zero)
next
  case False
  with assms have n: "0 < n" by simp
  define x :: rat where "x = of_int n"
  have x: "0 < x" using n by (simp add: x_def)
  have "1 \<le> x" using n by (simp add: x_def)
  then have "(2::rat) powi 0 \<le> x" by simp
  have e0: "0 \<le> flog2 x"
  proof (rule ccontr)
    assume "\<not> 0 \<le> flog2 x"
    then have "flog2 x + 1 \<le> 0" by simp
    then have "(2::rat) powi (flog2 x + 1) \<le> 2 powi 0"
      by (intro power_int_increasing) auto
    with flog2_bounds(2) [OF x] \<open>1 \<le> x\<close> show False by simp
  qed
  have "x \<le> of_int (2 ^ 53)" using assms(2) unfolding x_def by (simp only: of_int_le_iff)
  then have x53: "x \<le> (2::rat) powi 53" by simp
  have e53: "flog2 x \<le> 53"
  proof (rule ccontr)
    assume "\<not> flog2 x \<le> 53"
    then have "54 \<le> flog2 x" by simp
    then have "(2::rat) powi 54 \<le> 2 powi flog2 x"
      by (intro power_int_increasing) auto
    with flog2_bounds(1) [OF x] x53 show False by simp
  qed
  have fe: "fexp x = flog2 x" using e0 x by (simp add: fexp_def)
  show ?thesis
  proof (cases "flog2 x = 53")
    case True
    with flog2_bounds(1) [OF x] x53 have "x = 2 powi 53" by simp
    then have xv: "x = 9007199254740992" by simp
    have "ulp x = 2" using True fe by (simp add: ulp_def)
    then have "fl x = of_int (round_half_even (of_int 4503599627370496)) * 2"
      by (simp add: fl_def xv)
    then show ?thesis unfolding round_half_even_of_int using xv x_def by simp
  next
    case False
    with e53 have k: "0 \<le> 52 - flog2 x" by simp
    define k where "k = nat (52 - flog2 x)"
    have "ulp x = 2 powi (- int k)" using k fe by (simp add: ulp_def k_def)
    then have u: "ulp x = 1 / 2 ^ k" by (simp add: power_int_minus_divide)
    have "x / ulp x = x * 2 ^ k" by (simp add: u)
    also have "\<dots> = of_int (n * 2 ^ k)" by (simp add: x_def)
    finally have "fl x = of_int (n * 2 ^ k) * ulp x"
      by (simp only: fl_def round_half_even_of_int)
    also have "\<dots> = of_int n * 2 ^ k * (1 / 2 ^ k)" by (simp only: u of_int_mult of_int_power of_int_numeral)
    also have "\<dots> = of_int n" by simp
    finally show ?thesis by (simp only: x_def)
  qed
qed


text \<open>So are their halves.\<close>

lemma fl_half_of_int:
  assumes "0 \<le> n" "n \<le> 2 ^ 53"
  shows "fl (of_int n / 2) = of_int n / 2"
proof (cases "n = 0")
  case True
  then show ?thesis by (simp add: fl_zero)
next
  case False
  with assms have n: "0 < n" by simp
  define x :: rat where "x = of_int n / 2"
  have x: "0 < x" using n by (simp add: x_def)
  have "1 \<le> (of_int n :: rat)" using n by simp
  then have "1 / 2 \<le> x" by (simp add: x_def)
  then have lo: "(2::rat) powi (- 1) \<le> x" by simp
  have e0: "- 1 \<le> flog2 x"
  proof (rule ccontr)
    assume "\<not> - 1 \<le> flog2 x"
    then have "flog2 x + 1 \<le> - 1" by simp
    then have "(2::rat) powi (flog2 x + 1) \<le> 2 powi (- 1)"
      by (intro power_int_increasing) auto
    with flog2_bounds(2) [OF x] lo show False by simp
  qed
  have "(of_int n :: rat) \<le> of_int (2 ^ 53)" using assms(2) by (simp only: of_int_le_iff)
  then have "x \<le> 2 ^ 53 / 2" by (simp add: x_def)
  then have x52: "x \<le> (2::rat) powi 52" by simp
  have e52: "flog2 x \<le> 52"
  proof (rule ccontr)
    assume "\<not> flog2 x \<le> 52"
    then have "53 \<le> flog2 x" by simp
    then have "(2::rat) powi 53 \<le> 2 powi flog2 x"
      by (intro power_int_increasing) auto
    with flog2_bounds(1) [OF x] x52 show False by simp
  qed
  have fe: "fexp x = flog2 x" using e0 x by (simp add: fexp_def)
  show ?thesis
  proof (cases "flog2 x = 52")
    case True
    with flog2_bounds(1) [OF x] x52 have "x = 2 powi 52" by simp
    then have xv: "x = 4503599627370496" by simp
    have "ulp x = 1" using True fe by (simp add: ulp_def)
    then have "fl x = of_int (round_half_even (of_int 4503599627370496))"
      by (simp add: fl_def xv)
    then have "fl x = x" unfolding round_half_even_of_int using xv by simp
    then show ?thesis by (simp only: x_def)
  next
    case False
    with e52 have k: "0 \<le> 51 - flog2 x" by simp
    define k where "k = nat (51 - flog2 x)"
    have "flog2 x - 52 = - int (Suc k)" using k by (simp add: k_def)
    then have "ulp x = 2 powi (- int (Suc k))" using fe by (simp add: ulp_def)
    then have u: "ulp x = 1 / 2 ^ Suc k"
      by (simp only: power_int_minus_divide power_int_of_nat)
    have "x / ulp x = x * 2 ^ Suc k" by (simp add: u)
    also have "\<dots> = of_int (n * 2 ^ k)" by (simp add: x_def)
    finally have "fl x = of_int (n * 2 ^ k) * ulp x"
      by (simp only: fl_def round_half_even_of_int)
    also have "\<dots> = of_int n * 2 ^ k * (1 / 2 ^ Suc k)"
      by (simp only: u of_int_mult of_int_power of_int_numeral)
    also have "\<dots> = of_int n / 2" by simp
    finally show ?thesis by (simp only: x_def)
  qed
qed

lemma fl_range:
  assumes "0 \<le> x" "x \<le> of_int b" "b \<le> 2 ^ 53"
  shows "0 \<le> fl x \<and> fl x \<le> of_int b"
proof -
  have "(0::rat) \<le> of_int b" using assms(1,2) by linarith
  then have "0 \<le> b" by simp
  then have "fl (of_int b) = of_int b" using assms(3) by (rule fl_of_int)
  then show ?thesis using fl_mono [OF assms(1,2)] fl_nonneg [OF assms(1)] by simp
qed

lemma round2_range:
  assumes "0 \<le> x" "x \<le> of_int b" "b \<le> 2 ^ 53"
  shows "0 \<le> round2 x \<and> round2 x \<le> of_int b"
proof -
  have "of_int 0 \<le> x * 100" using assms(1) by simp
  then have l: "0 \<le> round_half_even (x * 100)" by (rule round_half_even_ge)
  have "x * 100 \<le> of_int (b * 100)" using assms(2) by simp
  then have u: "round_half_even (x * 100) \<le> b * 100" by (rule round_half_even_le)
  have "(0::rat) \<le> of_int (round_half_even (x * 100))" using l by simp
  then have l': "(0::rat) \<le> of_int (round_half_even (x * 100)) / 100" by simp
  have "(of_int (round_half_even (x * 100)) :: rat) \<le> of_int (b * 100)"
    using u by (simp only: of_int_le_iff)
  then have u': "of_int (round_half_even (x * 100)) / 100 \<le> (of_int b :: rat)" by simp
  show ?thesis unfolding round2_def using l' u' assms(3) by (rule fl_range)
qed

subsection \<open>Operations with an integer operand\<close>

lemma int_div_float_nonneg: "0 \<le> n \<Longrightarrow> 0 \<le> int_div_float n 5"
  unfolding int_div_float_def by (intro fl_nonneg divide_nonneg_nonneg) simp_all



lemma earned_range:
  assumes "0 \<le> n" "n \<le> 2 ^ 53" "0 \<le> c" "c \<le> 1"
  shows "0 \<le> round_half_even (int_mul_float n c) \<and> round_half_even (int_mul_float n c) \<le> n"
proof -
  have n: "fl (of_int n) = of_int n" using assms(1,2) by (rule fl_of_int)
  have "0 \<le> of_int n * c" using assms(1,3) by simp
  moreover have "of_int n * c \<le> of_int n"
    using assms(1,4) by (simp add: mult_left_le)
  ultimately have "0 \<le> fl (of_int n * c) \<and> fl (of_int n * c) \<le> of_int n"
    using assms(2) by (rule fl_range)
  then show ?thesis
    unfolding int_mul_float_def n
    using round_half_even_ge [of 0 "fl (of_int n * c)"] round_half_even_le [of "fl (of_int n * c)" n]
    by simp
qed

subsection \<open>Evaluated values\<close>

lemma round2_literals:
  "round2 0 = 0" "round2 1 = 1" "round2 (1 / 2) = 1 / 2"
  "round2 (fl (3 / 5)) = fl (3 / 5)" "round2 (fl (3 / 10)) = fl (3 / 10)"
  by code_simp+



lemma scenario_numbers:
  "round_half_even (int_mul_float 3 1) = 3"
  "round_half_even (int_mul_float 10 (fl (3 / 10))) = 3"
  "round2 (float_mul (int_truediv 6 13) 100) = fl (4615 / 100)"
  by code_simp+

lemma large_product:
  "round_half_even (int_mul_float 9007199254740995 1) = 9007199254740996"
  by code_simp

section \<open>Properties of the model\<close>

subsection \<open>Equality of values\<close>

lemma py_eq_same_scalar:
  "py_eq PNone PNone" "py_eq (PBool b) (PBool b)" "py_eq (PInt n) (PInt n)" "py_eq (PStr s) (PStr s)"
  by simp_all

lemma py_eq_numbers_by_value:
  "py_eq (PInt n) (PBool b) \<longleftrightarrow> n = (if b then 1 else 0)"
  "py_eq (PInt n) (PFloat (Finite r)) \<longleftrightarrow> of_int n = r"
  by (auto split: if_splits)

lemma py_eq_no_conversion:
  "\<not> py_eq (PStr s) (PInt n)" "\<not> py_eq (PInt n) (PStr s)"
  "\<not> py_eq (PStr s) (PBool b)" "\<not> py_eq PNone (PInt n)"
  by simp_all

subsection \<open>The grading loop\<close>

lemma grade_loop_eq:
  "grade_loop repr ans i qs (e, fb) =
     (e + sum_list (map fb_earned (map (\<lambda>(j, q). grade_question repr ans j q) (enumerate i qs))),
      fb @ map (\<lambda>(j, q). grade_question repr ans j q) (enumerate i qs))"
  by (induction qs arbitrary: i e fb) (simp_all add: Let_def)

lemma feedback_grade:
  "feedback (grade repr qs ans) =
     map (\<lambda>(j, q). grade_question repr ans j q) (enumerate 0 qs)"
  by (simp add: grade_def grade_loop_eq Let_def)

lemma length_feedback: "length (feedback (grade repr qs ans)) = length qs"
  by (simp add: feedback_grade)

lemma feedback_nth:
  "i < length qs \<Longrightarrow> feedback (grade repr qs ans) ! i = grade_question repr ans i (qs ! i)"
  by (simp add: feedback_grade nth_enumerate_eq)

lemma total_points_grade: "total_points (grade repr qs ans) = sum_list (map points qs)"
  by (simp add: grade_def Let_def split: prod.splits)

lemma score_grade:
  "score (grade repr qs ans) =
     (if 0 < sum_list (map points qs)
      then round2 (float_mul (int_truediv (sum_list (map fb_earned (feedback (grade repr qs ans))))
                                          (sum_list (map points qs))) 100)
      else 0)"
  by (simp add: grade_def grade_loop_eq Let_def)

lemma earned_total:
  "fst (grade_loop repr ans 0 qs (0, [])) = sum_list (map fb_earned (feedback (grade repr qs ans)))"
  by (simp add: grade_loop_eq feedback_grade)

subsection \<open>One question\<close>

lemma find_answer_None: "find_answer ans i = None \<longleftrightarrow> (\<forall>a \<in> set ans. question_index a \<noteq> int i)"
  by (auto simp: find_answer_def find_None_iff)

lemma grade_question_fields:
  "fb_earned (grade_question repr ans i q) =
     round_half_even (int_mul_float (points q) (fst (assess repr q (find_answer ans i))))"
  "fb_correctness (grade_question repr ans i q) = round2 (fst (assess repr q (find_answer ans i)))"
  "fb_points (grade_question repr ans i q) = points q"
  "fb_question_index (grade_question repr ans i q) = i"
  by (simp_all add: grade_question_def Let_def split: prod.splits)

lemma correctness_nth:
  "i < length qs \<Longrightarrow>
   fb_correctness (feedback (grade repr qs ans) ! i) =
     round2 (fst (assess repr (qs ! i) (find_answer ans i)))"
  by (simp add: feedback_nth grade_question_def Let_def split: prod.splits)

lemma earned_nth:
  "i < length qs \<Longrightarrow>
   fb_earned (feedback (grade repr qs ans) ! i) =
     round_half_even (int_mul_float (points (qs ! i)) (fst (assess repr (qs ! i) (find_answer ans i))))"
  by (simp add: feedback_nth grade_question_def Let_def split: prod.splits)

lemma assess_None: "fst (assess repr q None) = 1 / 2"
  by (simp add: assess_def)

lemma assess_multiple_choice:
  "type q = ''multiple_choice'' \<Longrightarrow>
   fst (assess repr q (Some a)) =
     (if answer_key q \<noteq> PNone \<and> py_eq (answer a) (answer_key q) then 1 else 0)"
  by (simp add: assess_def Let_def)


lemma assess_essay:
  "type q = ''essay'' \<Longrightarrow>
   fst (assess repr q (Some a)) =
     (if 200 < length (py_str repr (answer a)) then 1
      else if 80 < length (py_str repr (answer a)) then fl (3 / 5) else fl (3 / 10))"
  by (simp add: assess_def Let_def)

lemma assess_range: "0 \<le> fst (assess repr q u) \<and> fst (assess repr q u) \<le> 1"
proof -
  have a: "0 \<le> fl (3 / 5) \<and> fl (3 / 5) \<le> of_int 1" by (rule fl_range) simp_all
  have b: "0 \<le> fl (3 / 10) \<and> fl (3 / 10) \<le> of_int 1" by (rule fl_range) simp_all
  have c: "0 \<le> int_div_float (int k) 5" for k by (rule int_div_float_nonneg) simp
  show ?thesis
    using a b c by (auto simp: assess_def Let_def split: option.splits)
qed

subsection \<open>Ranges\<close>

lemma grade_question_range:
  assumes "0 \<le> points q" "points q \<le> 2 ^ 53"
  shows "0 \<le> fb_correctness (grade_question repr ans i q) \<and>
         fb_correctness (grade_question repr ans i q) \<le> 1 \<and>
         0 \<le> fb_earned (grade_question repr ans i q) \<and>
         fb_earned (grade_question repr ans i q) \<le> fb_points (grade_question repr ans i q)"
proof -
  let ?c = "fst (assess repr q (find_answer ans i))"
  have c: "0 \<le> ?c" "?c \<le> 1" using assess_range [of repr q "find_answer ans i"] by simp_all
  have "0 \<le> round2 ?c \<and> round2 ?c \<le> of_int 1"
    using c by (intro round2_range) simp_all
  moreover have "0 \<le> round_half_even (int_mul_float (points q) ?c) \<and>
      round_half_even (int_mul_float (points q) ?c) \<le> points q"
    using assms c by (rule earned_range)
  ultimately show ?thesis by (simp add: grade_question_fields)
qed

lemma feedback_item_range:
  assumes "\<forall>q \<in> set qs. 0 \<le> points q \<and> points q \<le> 2 ^ 53"
    and "it \<in> set (feedback (grade repr qs ans))"
  shows "0 \<le> fb_correctness it \<and> fb_correctness it \<le> 1 \<and>
         0 \<le> fb_earned it \<and> fb_earned it \<le> fb_points it"
proof -
  from assms(2) obtain i where i: "i < length qs" "it = feedback (grade repr qs ans) ! i"
    by (metis in_set_conv_nth length_feedback)
  then have it: "it = grade_question repr ans i (qs ! i)" by (simp add: feedback_nth)
  have "0 \<le> points (qs ! i) \<and> points (qs ! i) \<le> 2 ^ 53" using assms(1) i(1) by simp
  then show ?thesis unfolding it by (intro grade_question_range) simp_all
qed

lemma points_items:
  "map fb_points (map (\<lambda>(j, q). grade_question repr ans j q) (enumerate i qs)) = map points qs"
  by (induction qs arbitrary: i) (simp_all add: grade_question_fields)

lemma earned_sum_range:
  assumes "\<forall>q \<in> set qs. 0 \<le> points q \<and> points q \<le> 2 ^ 53"
  shows "0 \<le> sum_list (map fb_earned (feedback (grade repr qs ans))) \<and>
         sum_list (map fb_earned (feedback (grade repr qs ans))) \<le> sum_list (map points qs)"
proof -
  have p: "map fb_points (feedback (grade repr qs ans)) = map points qs"
    unfolding feedback_grade by (rule points_items)
  have "0 \<le> sum_list (map fb_earned (feedback (grade repr qs ans)))"
    using feedback_item_range [OF assms] by (intro sum_list_nonneg) auto
  moreover have "sum_list (map fb_earned (feedback (grade repr qs ans))) \<le>
      sum_list (map fb_points (feedback (grade repr qs ans)))"
    using feedback_item_range [OF assms] by (intro sum_list_mono) auto
  ultimately show ?thesis by (simp add: p)
qed

lemma score_range:
  assumes "\<forall>q \<in> set qs. 0 \<le> points q \<and> points q \<le> 2 ^ 53"
  shows "0 \<le> score (grade repr qs ans) \<and> score (grade repr qs ans) \<le> 100"
proof (cases "0 < sum_list (map points qs)")
  case False
  then show ?thesis by (simp add: score_grade)
next
  case True
  define e where "e = sum_list (map fb_earned (feedback (grade repr qs ans)))"
  define t where "t = sum_list (map points qs)"
  have e: "0 \<le> e" "e \<le> t" using earned_sum_range [OF assms, of repr ans] by (simp_all add: e_def t_def)
  have t: "0 < t" using True by (simp add: t_def)
  have "(0::rat) \<le> of_int e / of_int t" using e(1) t by simp
  moreover have "(of_int e :: rat) / of_int t \<le> of_int 1" using e(2) t by (simp add: pos_divide_le_eq)
  ultimately have q: "0 \<le> int_truediv e t \<and> int_truediv e t \<le> of_int 1"
    unfolding int_truediv_def by (rule fl_range) simp
  then have "0 \<le> int_truediv e t * 100" "int_truediv e t * 100 \<le> of_int 100" by simp_all
  then have "0 \<le> float_mul (int_truediv e t) 100 \<and> float_mul (int_truediv e t) 100 \<le> of_int 100"
    unfolding float_mul_def by (rule fl_range) simp
  then have "0 \<le> round2 (float_mul (int_truediv e t) 100) \<and>
      round2 (float_mul (int_truediv e t) 100) \<le> of_int 100"
    by (intro round2_range) simp_all
  then show ?thesis using True by (simp add: score_grade e_def t_def)
qed

subsection \<open>The endpoints\<close>

lemma ObjectId_examples:
  "ObjectId ''abc'' = Inl (InvalidId ''abc'')"
  "ObjectId ''0123456789abcdefABCDEF00'' = Inr [1, 35, 69, 103, 137, 171, 205, 239, 171, 205, 239, 0]"
  by code_simp+

lemma create_submission_persists:
  assumes "ObjectId (assessment_id payload) = Inr aid" "map_of (assessment db) aid = Some a"
  shows "create_submission new_id payload db =
     (Inr (oid_str new_id, payload),
      db\<lparr>submission := submission db @ [(new_id, submission_create.extend payload \<lparr>grading = None\<rparr>)]\<rparr>)"
  using assms by (simp add: create_submission_def create_document_submission_def)

lemma grade_submission_result:
  assumes "ObjectId submission_id = Inr sid" "map_of (submission db) sid = Some sub"
    and "ObjectId (assessment_id sub) = Inr aid" "map_of (assessment db) aid = Some a"
  shows "grade_submission repr submission_id db =
     (Inr (grade repr (questions a) (answers sub)),
      db\<lparr>submission := set_grading sid (grade repr (questions a) (answers sub)) (submission db)\<rparr>)"
  using assms by (simp add: grade_submission_def Let_def)

lemma grade_submission_error_keeps_store:
  "fst (grade_submission repr submission_id db) = Inl e \<Longrightarrow>
   snd (grade_submission repr submission_id db) = db"
  by (auto simp: grade_submission_def Let_def split: sum.splits option.splits)

section \<open>The claims\<close>

text \<open>
  In the statements below the correctness of question \<open>i\<close> appears twice: as the value of
  the variable \<open>correctness\<close> at the end of the loop body,
  \<open>fst (assess repr (qs ! i) (find_answer ans i))\<close>, from which the earned points are
  computed, and as the entry \<open>fb_correctness\<close> of the feedback, which is that value
  rounded to two decimals.
\<close>

text \<open>
  C1, as the code has it. For every \<open>multiple_choice\<close> question whose \<open>answer_key\<close> is
  \<open>None\<close> and for which a submitted answer matches the index, the correctness is
  \<open>0.0\<close>: the test \<open>key is not None and ...\<close> fails and the \<open>else\<close> branch assigns
  \<open>0.0\<close>. The default \<open>0.5\<close> does not survive.
\<close>

theorem absent_key_scores_zero:
  assumes "i < length qs" "type (qs ! i) = ''multiple_choice''"
    and "answer_key (qs ! i) = PNone" "find_answer ans i = Some a"
  shows "fst (assess repr (qs ! i) (find_answer ans i)) = 0 \<and>
         fb_correctness (feedback (grade repr qs ans) ! i) = 0"
  using assms by (simp add: correctness_nth assess_multiple_choice round2_literals)

text \<open>A question without a key, answered with option 1.\<close>

theorem absent_key_scores_zero_witness:
  "fb_correctness
     (feedback
        (grade repr_any
           [\<lparr>prompt = ''Which option best matches the definition?'',
             type = ''multiple_choice'', options = None, answer_key = PNone, points = 3\<rparr>]
           [\<lparr>question_index = 0, answer = PInt 1\<rparr>]) ! 0) = 0"
proof -
  have "find_answer [\<lparr>question_index = 0, answer = PInt 1\<rparr>] 0 =
      Some \<lparr>question_index = 0, answer = PInt 1\<rparr>"
    by (simp add: find_answer_def)
  from absent_key_scores_zero [OF _ _ _ this, of _ repr_any] show ?thesis by simp
qed

text \<open>
  C1 as stated (the correctness stays at \<open>0.5\<close>) fails on that input.
\<close>

theorem absent_key_counterexample:
  "fb_correctness
     (feedback
        (grade repr_any
           [\<lparr>prompt = ''Which option best matches the definition?'',
             type = ''multiple_choice'', options = None, answer_key = PNone, points = 3\<rparr>]
           [\<lparr>question_index = 0, answer = PInt 1\<rparr>]) ! 0) \<noteq> 1 / 2"
  by (simp add: correctness_nth find_answer_def assess_multiple_choice round2_literals)







text \<open>
  C5. For every question index \<open>i\<close> such that no submitted answer has \<open>question_index\<close>
  equal to \<open>i\<close> (an index outside the question list never matches anything), the question
  gets the correctness \<open>0.5\<close> and earns \<open>round(points * 0.5)\<close>. For points between 0 and
  \<open>2 ^ 53\<close> that is half the points, a half being rounded to the even neighbour:
  \<open>points div 2\<close>, plus one when \<open>points mod 4 = 3\<close>. The earned total that the loop
  accumulates is the sum of the per-question earned values.
\<close>

theorem unanswered_default_half:
  assumes "i < length qs" "\<forall>a \<in> set ans. question_index a \<noteq> int i"
  shows "fst (assess repr (qs ! i) (find_answer ans i)) = 1 / 2 \<and>
         fb_correctness (feedback (grade repr qs ans) ! i) = 1 / 2 \<and>
         fb_earned (feedback (grade repr qs ans) ! i) =
           round_half_even (int_mul_float (points (qs ! i)) (1 / 2)) \<and>
         (0 \<le> points (qs ! i) \<and> points (qs ! i) \<le> 2 ^ 53 \<longrightarrow>
            fb_earned (feedback (grade repr qs ans) ! i) =
              points (qs ! i) div 2 + (if points (qs ! i) mod 4 = 3 then 1 else 0)) \<and>
         fst (grade_loop repr ans 0 qs (0, [])) =
           sum_list (map fb_earned (feedback (grade repr qs ans)))"
proof -
  from assms(2) have n: "find_answer ans i = None" by (simp add: find_answer_None)
  have e: "fb_earned (feedback (grade repr qs ans) ! i) =
      round_half_even (int_mul_float (points (qs ! i)) (1 / 2))"
    unfolding earned_nth [OF assms(1)] n assess_None ..
  have "fb_earned (feedback (grade repr qs ans) ! i) =
      points (qs ! i) div 2 + (if points (qs ! i) mod 4 = 3 then 1 else 0)"
    if "0 \<le> points (qs ! i)" "points (qs ! i) \<le> 2 ^ 53"
  proof -
    have "fl (of_int (points (qs ! i))) = of_int (points (qs ! i))"
      using that by (rule fl_of_int)
    then have "int_mul_float (points (qs ! i)) (1 / 2) = fl (of_int (points (qs ! i)) / 2)"
      by (simp add: int_mul_float_def)
    also have "\<dots> = of_int (points (qs ! i)) / 2" using that by (rule fl_half_of_int)
    finally show ?thesis unfolding e by (simp only: round_half_even_half)
  qed
  moreover have "fst (assess repr (qs ! i) (find_answer ans i)) = 1 / 2"
    unfolding n by (rule assess_None)
  moreover have "fb_correctness (feedback (grade repr qs ans) ! i) = 1 / 2"
    using assms(1) n by (simp add: correctness_nth assess_None round2_literals)
  ultimately show ?thesis using e earned_total [of repr ans qs] by blast
qed

text \<open>The answers carry the indices 0, 7 and -1 only: the essay question at index 2,
  worth 10 points, is unanswered and earns 5 of the 10 points earned in total.\<close>

theorem unanswered_default_half_witness:
  "fb_correctness
     (feedback (grade repr_any (fake_questions ''upload'')
        [\<lparr>question_index = 0, answer = PStr ''the main concept''\<rparr>,
         \<lparr>question_index = 7, answer = PInt 1\<rparr>,
         \<lparr>question_index = - 1, answer = PInt 1\<rparr>]) ! 2) = 1 / 2 \<and>
   fb_earned
     (feedback (grade repr_any (fake_questions ''upload'')
        [\<lparr>question_index = 0, answer = PStr ''the main concept''\<rparr>,
         \<lparr>question_index = 7, answer = PInt 1\<rparr>,
         \<lparr>question_index = - 1, answer = PInt 1\<rparr>]) ! 2) = 5 \<and>
   fst (grade_loop repr_any
        [\<lparr>question_index = 0, answer = PStr ''the main concept''\<rparr>,
         \<lparr>question_index = 7, answer = PInt 1\<rparr>,
         \<lparr>question_index = - 1, answer = PInt 1\<rparr>] 0 (fake_questions ''upload'') (0, [])) = 10"
proof -
  have q: "2 < length (fake_questions ''upload'')" by (simp add: fake_questions_def)
  have n: "\<forall>a \<in> set [\<lparr>question_index = 0, answer = PStr ''the main concept''\<rparr>,
         \<lparr>question_index = 7, answer = PInt 1\<rparr>,
         \<lparr>question_index = - 1, answer = PInt 1\<rparr>]. question_index a \<noteq> int 2"
    by simp
  have p: "points (fake_questions ''upload'' ! 2) = 10" by (simp add: fake_questions_def)
  have s: "sum_list (map fb_earned (feedback (grade repr_any (fake_questions ''upload'')
        [\<lparr>question_index = 0, answer = PStr ''the main concept''\<rparr>,
         \<lparr>question_index = 7, answer = PInt 1\<rparr>,
         \<lparr>question_index = - 1, answer = PInt 1\<rparr>]))) = 10"
    by code_simp
  show ?thesis
    using unanswered_default_half [OF q n, of repr_any] unfolding p s by simp
qed

text \<open>
  C6. For every list of questions and every list of answers, \<open>total_points\<close> is the sum
  of the points of all questions, whatever was answered, and \<open>score\<close> is
  \<open>round(earned / total_points * 100, 2)\<close> when \<open>total_points > 0\<close> and \<open>0.0\<close>
  otherwise, \<open>earned\<close> being the sum of the points earned per question. Rounding to two
  decimals means: the score is the float of a whole number of hundredths that lies within
  half a hundredth of the percentage.
\<close>

theorem total_points_and_score:
  "total_points (grade repr qs ans) = sum_list (map points qs) \<and>
   score (grade repr qs ans) =
     (if 0 < sum_list (map points qs)
      then round2 (float_mul
             (int_truediv (sum_list (map fb_earned (feedback (grade repr qs ans))))
                          (sum_list (map points qs))) 100)
      else 0) \<and>
   (let percent = float_mul
          (int_truediv (sum_list (map fb_earned (feedback (grade repr qs ans))))
                       (sum_list (map points qs))) 100;
        hundredths = round_half_even (percent * 100)
    in 0 < sum_list (map points qs) \<longrightarrow>
         score (grade repr qs ans) = fl (of_int hundredths / 100) \<and>
         \<bar>of_int hundredths / 100 - percent\<bar> \<le> 1 / 200)"
proof -
  have "\<bar>of_int (round_half_even (x * 100)) / 100 - x\<bar> \<le> 1 / 200" for x :: rat
  proof -
    have "of_int (round_half_even (x * 100)) / 100 - x =
        (of_int (round_half_even (x * 100)) - x * 100) / 100"
      by (simp add: diff_divide_distrib)
    then have "\<bar>of_int (round_half_even (x * 100)) / 100 - x\<bar> =
        \<bar>of_int (round_half_even (x * 100)) - x * 100\<bar> / 100"
      by (simp only: abs_divide abs_numeral)
    also have "\<dots> \<le> (1 / 2) / 100"
      using round_half_even_near [of "x * 100"] by (intro divide_right_mono) simp_all
    finally show ?thesis by simp
  qed
  then show ?thesis
    using total_points_grade [of repr qs ans] score_grade [of repr qs ans]
    by (simp add: Let_def round2_def)
qed

text \<open>With the multiple choice question alone answered, the questions of the upload stub
  still total 18 points; 10 are earned and the percentage 55.55... is reported as the
  float \<open>55.56\<close>. Without questions the total and the score are zero.\<close>

theorem total_points_and_score_witness:
  "total_points (grade repr_any (fake_questions ''upload'')
      [\<lparr>question_index = 1, answer = PInt 1\<rparr>]) = 18 \<and>
   score (grade repr_any (fake_questions ''upload'')
      [\<lparr>question_index = 1, answer = PInt 1\<rparr>]) = 977421856627753 / 17592186044416 \<and>
   total_points (grade repr_any [] []) = 0 \<and>
   score (grade repr_any [] []) = 0"
proof -
  have p: "sum_list (map points (fake_questions ''upload'')) = 18"
    by (simp add: fake_questions_def)
  have e: "sum_list (map fb_earned (feedback (grade repr_any (fake_questions ''upload'')
      [\<lparr>question_index = 1, answer = PInt 1\<rparr>]))) = 10"
    by code_simp
  have r: "round2 (float_mul (int_truediv 10 18) 100) = 977421856627753 / 17592186044416"
    by code_simp
  note th = total_points_and_score [of repr_any "fake_questions ''upload''"
        "[\<lparr>question_index = 1, answer = PInt 1\<rparr>]"]
  have t: "total_points (grade repr_any (fake_questions ''upload'')
      [\<lparr>question_index = 1, answer = PInt 1\<rparr>]) = 18"
    using th unfolding p by blast
  have "score (grade repr_any (fake_questions ''upload'')
      [\<lparr>question_index = 1, answer = PInt 1\<rparr>]) =
      (if (0::int) < 18 then round2 (float_mul (int_truediv 10 18) 100) else 0)"
    using th unfolding p e by blast
  then have "score (grade repr_any (fake_questions ''upload'')
      [\<lparr>question_index = 1, answer = PInt 1\<rparr>]) = 977421856627753 / 17592186044416"
    by (simp only: r zero_less_numeral if_True)
  with t have a: "total_points (grade repr_any (fake_questions ''upload'')
      [\<lparr>question_index = 1, answer = PInt 1\<rparr>]) = 18 \<and>
    score (grade repr_any (fake_questions ''upload'')
      [\<lparr>question_index = 1, answer = PInt 1\<rparr>]) = 977421856627753 / 17592186044416"
    by (rule conjI)
  have b: "total_points (grade repr_any [] []) = 0 \<and> score (grade repr_any [] []) = 0"
    using total_points_and_score [of repr_any "[]" "[]"] by simp
  from a b show ?thesis by simp
qed

text \<open>
  C7. An assessment of one \<open>multiple_choice\<close> question (\<open>answer_key = 1\<close>, 3 points)
  answered with 1 and one \<open>essay\<close> question (10 points) answered with a string of 50
  characters grades to: question 0 earns 3 with correctness \<open>1.0\<close>, question 1 earns 3
  with correctness \<open>0.3\<close>, \<open>total_points = 13\<close> and \<open>score = 46.15\<close>. Prompts, options
  and the essay's key are arbitrary.
\<close>

theorem scenario_choice_and_essay:
  assumes "length s = 50"
  shows "map fb_earned (feedback (grade repr
            [\<lparr>prompt = p0, type = ''multiple_choice'', options = o0, answer_key = PInt 1, points = 3\<rparr>,
             \<lparr>prompt = p1, type = ''essay'', options = o1, answer_key = k1, points = 10\<rparr>]
            [\<lparr>question_index = 0, answer = PInt 1\<rparr>, \<lparr>question_index = 1, answer = PStr s\<rparr>]))
           = [3, 3] \<and>
         map fb_correctness (feedback (grade repr
            [\<lparr>prompt = p0, type = ''multiple_choice'', options = o0, answer_key = PInt 1, points = 3\<rparr>,
             \<lparr>prompt = p1, type = ''essay'', options = o1, answer_key = k1, points = 10\<rparr>]
            [\<lparr>question_index = 0, answer = PInt 1\<rparr>, \<lparr>question_index = 1, answer = PStr s\<rparr>]))
           = [1, fl (3 / 10)] \<and>
         total_points (grade repr
            [\<lparr>prompt = p0, type = ''multiple_choice'', options = o0, answer_key = PInt 1, points = 3\<rparr>,
             \<lparr>prompt = p1, type = ''essay'', options = o1, answer_key = k1, points = 10\<rparr>]
            [\<lparr>question_index = 0, answer = PInt 1\<rparr>, \<lparr>question_index = 1, answer = PStr s\<rparr>])
           = 13 \<and>
         score (grade repr
            [\<lparr>prompt = p0, type = ''multiple_choice'', options = o0, answer_key = PInt 1, points = 3\<rparr>,
             \<lparr>prompt = p1, type = ''essay'', options = o1, answer_key = k1, points = 10\<rparr>]
            [\<lparr>question_index = 0, answer = PInt 1\<rparr>, \<lparr>question_index = 1, answer = PStr s\<rparr>])
           = fl (4615 / 100)"
proof -
  define q0 where "q0 = \<lparr>prompt = p0, type = ''multiple_choice'', options = o0, answer_key = PInt 1, points = 3\<rparr>"
  define q1 where "q1 = \<lparr>prompt = p1, type = ''essay'', options = o1, answer_key = k1, points = 10\<rparr>"
  define ans where "ans = [\<lparr>question_index = 0, answer = PInt 1\<rparr>, \<lparr>question_index = 1, answer = PStr s\<rparr>]"
  have fb: "feedback (grade repr [q0, q1] ans) =
      [grade_question repr ans 0 q0, grade_question repr ans (Suc 0) q1]"
    by (simp add: feedback_grade enumerate_eq_zip upt_rec)
  have a0: "fst (assess repr q0 (find_answer ans 0)) = 1"
    by (simp add: find_answer_def ans_def q0_def assess_multiple_choice)
  have a1: "fst (assess repr q1 (find_answer ans (Suc 0))) = fl (3 / 10)"
    using assms by (simp add: find_answer_def ans_def q1_def assess_essay)
  have e0: "fb_earned (grade_question repr ans 0 q0) = 3"
    unfolding grade_question_fields a0 by (simp add: scenario_numbers q0_def)
  have e1: "fb_earned (grade_question repr ans (Suc 0) q1) = 3"
    unfolding grade_question_fields a1 by (simp add: scenario_numbers q1_def)
  have c0: "fb_correctness (grade_question repr ans 0 q0) = 1"
    unfolding grade_question_fields a0 by (simp add: round2_literals)
  have c1: "fb_correctness (grade_question repr ans (Suc 0) q1) = fl (3 / 10)"
    unfolding grade_question_fields a1 by (simp add: round2_literals)
  have t: "total_points (grade repr [q0, q1] ans) = 13"
    by (simp add: total_points_grade q0_def q1_def)
  have p: "sum_list (map points [q0, q1]) = 13" by (simp add: q0_def q1_def)
  have e: "sum_list (map fb_earned (feedback (grade repr [q0, q1] ans))) = 6"
    by (simp add: fb e0 e1)
  have sc: "score (grade repr [q0, q1] ans) = fl (4615 / 100)"
    unfolding score_grade p e using scenario_numbers(3) by simp
  have "map fb_earned (feedback (grade repr [q0, q1] ans)) = [3, 3]"
    by (simp add: fb e0 e1)
  moreover have "map fb_correctness (feedback (grade repr [q0, q1] ans)) = [1, fl (3 / 10)]"
    by (simp add: fb c0 c1)
  ultimately show ?thesis
    using t sc unfolding q0_def q1_def ans_def by (intro conjI)
qed

text \<open>The two questions of the upload stub and an essay of fifty letters.\<close>

theorem scenario_choice_and_essay_witness:
  "map fb_earned (feedback (grade repr_any
      [\<lparr>prompt = ''Which option best matches the definition?'', type = ''multiple_choice'',
        options = Some [''Option A'', ''Option B'', ''Option C'', ''Option D''],
        answer_key = PInt 1, points = 3\<rparr>,
       \<lparr>prompt = ''Write a short essay explaining the implications.'', type = ''essay'',
        options = None, answer_key = PNone, points = 10\<rparr>]
      [\<lparr>question_index = 0, answer = PInt 1\<rparr>,
       \<lparr>question_index = 1, answer = PStr (replicate 50 CHR ''x'')\<rparr>])) = [3, 3] \<and>
   map fb_correctness (feedback (grade repr_any
      [\<lparr>prompt = ''Which option best matches the definition?'', type = ''multiple_choice'',
        options = Some [''Option A'', ''Option B'', ''Option C'', ''Option D''],
        answer_key = PInt 1, points = 3\<rparr>,
       \<lparr>prompt = ''Write a short essay explaining the implications.'', type = ''essay'',
        options = None, answer_key = PNone, points = 10\<rparr>]
      [\<lparr>question_index = 0, answer = PInt 1\<rparr>,
       \<lparr>question_index = 1, answer = PStr (replicate 50 CHR ''x'')\<rparr>])) = [1, fl (3 / 10)] \<and>
   total_points (grade repr_any
      [\<lparr>prompt = ''Which option best matches the definition?'', type = ''multiple_choice'',
        options = Some [''Option A'', ''Option B'', ''Option C'', ''Option D''],
        answer_key = PInt 1, points = 3\<rparr>,
       \<lparr>prompt = ''Write a short essay explaining the implications.'', type = ''essay'',
        options = None, answer_key = PNone, points = 10\<rparr>]
      [\<lparr>question_index = 0, answer = PInt 1\<rparr>,
       \<lparr>question_index = 1, answer = PStr (replicate 50 CHR ''x'')\<rparr>]) = 13 \<and>
   score (grade repr_any
      [\<lparr>prompt = ''Which option best matches the definition?'', type = ''multiple_choice'',
        options = Some [''Option A'', ''Option B'', ''Option C'', ''Option D''],
        answer_key = PInt 1, points = 3\<rparr>,
       \<lparr>prompt = ''Write a short essay explaining the implications.'', type = ''essay'',
        options = None, answer_key = PNone, points = 10\<rparr>]
      [\<lparr>question_index = 0, answer = PInt 1\<rparr>,
       \<lparr>question_index = 1, answer = PStr (replicate 50 CHR ''x'')\<rparr>]) = fl (4615 / 100)"
proof -
  have l: "length (replicate 50 CHR ''x'') = 50" by simp
  from scenario_choice_and_essay [OF l] show ?thesis .
qed

text \<open>
  C8, as the code has it. A submission whose \<open>assessment_id\<close> is a well-formed object
  identifier that no stored assessment carries is refused with the 404 error
  \<open>Assessment not found\<close>. An \<open>assessment_id\<close> that is not a well-formed identifier is
  refused earlier, by \<open>ObjectId\<close>, with \<open>InvalidId\<close>. Whenever the operation fails the
  store is unchanged: no submission is persisted.
\<close>

theorem missing_assessment_not_found:
  "(\<forall>aid. ObjectId (assessment_id payload) = Inr aid \<and> map_of (assessment db) aid = None \<longrightarrow>
      create_submission new_id payload db =
        (Inl (HTTPException 404 ''Assessment not found''), db)) \<and>
   (\<forall>e. ObjectId (assessment_id payload) = Inl e \<longrightarrow>
      create_submission new_id payload db = (Inl e, db)) \<and>
   (\<forall>e. fst (create_submission new_id payload db) = Inl e \<longrightarrow>
      snd (create_submission new_id payload db) = db)"
  by (auto simp: create_submission_def Let_def split: sum.splits option.splits prod.splits)

text \<open>A well-formed identifier and an empty store.\<close>

theorem missing_assessment_not_found_witness:
  "create_submission [0, 0, 0, 0, 0, 0, 0, 0, 0, 0, 0, 1]
     \<lparr>assessment_id = ''0123456789abcdefABCDEF00'', student_name = None, answers = []\<rparr>
     \<lparr>assessment = [], submission = []\<rparr> =
   (Inl (HTTPException 404 ''Assessment not found''), \<lparr>assessment = [], submission = []\<rparr>)"
proof -
  have "ObjectId (assessment_id \<lparr>assessment_id = ''0123456789abcdefABCDEF00'', student_name = None, answers = []\<rparr>)
      = Inr [1, 35, 69, 103, 137, 171, 205, 239, 171, 205, 239, 0] \<and>
    map_of (assessment \<lparr>assessment = [], submission = []\<rparr>)
      [1, 35, 69, 103, 137, 171, 205, 239, 171, 205, 239, 0] = None"
    by (simp add: ObjectId_examples)
  then show ?thesis
    using missing_assessment_not_found
      [of "\<lparr>assessment_id = ''0123456789abcdefABCDEF00'', student_name = None, answers = []\<rparr>"
          "\<lparr>assessment = [], submission = []\<rparr>" "[0, 0, 0, 0, 0, 0, 0, 0, 0, 0, 0, 1]"]
    by blast
qed

text \<open>
  C8 as stated promises the 404 error for every \<open>assessment_id\<close> that resolves to no
  assessment. The identifier \<open>abc\<close> resolves to none, and the error is \<open>InvalidId\<close>.
\<close>

theorem malformed_id_counterexample:
  "fst (create_submission [0, 0, 0, 0, 0, 0, 0, 0, 0, 0, 0, 1]
     \<lparr>assessment_id = ''abc'', student_name = None, answers = []\<rparr>
     \<lparr>assessment = [], submission = []\<rparr>) = Inl (InvalidId ''abc'') \<and>
   fst (create_submission [0, 0, 0, 0, 0, 0, 0, 0, 0, 0, 0, 1]
     \<lparr>assessment_id = ''abc'', student_name = None, answers = []\<rparr>
     \<lparr>assessment = [], submission = []\<rparr>) \<noteq> Inl (HTTPException 404 ''Assessment not found'')"
  by (simp add: create_submission_def ObjectId_examples)

text \<open>
  C9. The points earned are \<open>round(points * correctness)\<close> with Python's \<open>round\<close>, which
  rounds a tie to the even neighbour: a question with correctness \<open>0.5\<close> earns 0 when it
  is worth 1 point and 2 when it is worth 5 points. Ties below an odd number go up: 3
  points earn 2 and 7 points earn 4. With correctness \<open>0.3\<close>, 5 points (the product is
  exactly 1.5) earn 2 and 15 points (4.5) earn 4.
\<close>

theorem earned_rounds_half_to_even:
  assumes "i < length qs"
  shows "fb_earned (feedback (grade repr qs ans) ! i) =
           round_half_even (int_mul_float (points (qs ! i))
             (fst (assess repr (qs ! i) (find_answer ans i)))) \<and>
         (fst (assess repr (qs ! i) (find_answer ans i)) = 1 / 2 \<longrightarrow>
            (points (qs ! i) = 1 \<longrightarrow> fb_earned (feedback (grade repr qs ans) ! i) = 0) \<and>
            (points (qs ! i) = 3 \<longrightarrow> fb_earned (feedback (grade repr qs ans) ! i) = 2) \<and>
            (points (qs ! i) = 5 \<longrightarrow> fb_earned (feedback (grade repr qs ans) ! i) = 2) \<and>
            (points (qs ! i) = 7 \<longrightarrow> fb_earned (feedback (grade repr qs ans) ! i) = 4) \<and>
            (0 \<le> points (qs ! i) \<and> points (qs ! i) \<le> 2 ^ 53 \<longrightarrow>
               fb_earned (feedback (grade repr qs ans) ! i) =
                 points (qs ! i) div 2 + (if points (qs ! i) mod 4 = 3 then 1 else 0))) \<and>
         (fst (assess repr (qs ! i) (find_answer ans i)) = fl (3 / 10) \<longrightarrow>
            (points (qs ! i) = 5 \<longrightarrow> fb_earned (feedback (grade repr qs ans) ! i) = 2) \<and>
            (points (qs ! i) = 15 \<longrightarrow> fb_earned (feedback (grade repr qs ans) ! i) = 4))"
proof -
  define c where "c = fst (assess repr (qs ! i) (find_answer ans i))"
  define p where "p = points (qs ! i)"
  define e where "e = fb_earned (feedback (grade repr qs ans) ! i)"
  have g: "e = round_half_even (int_mul_float p c)"
    unfolding e_def p_def c_def using assms by (rule earned_nth)
  have v: "round_half_even (int_mul_float 1 (1 / 2)) = 0"
    "round_half_even (int_mul_float 3 (1 / 2)) = 2"
    "round_half_even (int_mul_float 5 (1 / 2)) = 2"
    "round_half_even (int_mul_float 7 (1 / 2)) = 4"
    "round_half_even (int_mul_float 5 (fl (3 / 10))) = 2"
    "round_half_even (int_mul_float 15 (fl (3 / 10))) = 4"
    by code_simp+
  have f: "round_half_even (int_mul_float p (1 / 2)) = p div 2 + (if p mod 4 = 3 then 1 else 0)"
    if "0 \<le> p" "p \<le> 2 ^ 53"
  proof -
    have "fl (of_int p) = of_int p" using that by (rule fl_of_int)
    then have "int_mul_float p (1 / 2) = fl (of_int p / 2)" by (simp add: int_mul_float_def)
    also have "\<dots> = of_int p / 2" using that by (rule fl_half_of_int)
    finally show ?thesis by (simp only: round_half_even_half)
  qed
  have h: "(p = 1 \<longrightarrow> e = 0) \<and> (p = 3 \<longrightarrow> e = 2) \<and> (p = 5 \<longrightarrow> e = 2) \<and> (p = 7 \<longrightarrow> e = 4) \<and>
      (0 \<le> p \<and> p \<le> 2 ^ 53 \<longrightarrow> e = p div 2 + (if p mod 4 = 3 then 1 else 0))"
    if "c = 1 / 2"
    unfolding g that using v(1-4) f by auto
  have t: "(p = 5 \<longrightarrow> e = 2) \<and> (p = 15 \<longrightarrow> e = 4)" if "c = fl (3 / 10)"
    unfolding g that using v(5,6) by auto
  from g h t show ?thesis unfolding e_def p_def c_def by blast
qed

text \<open>Unanswered questions worth 5, 3 and 1 points, and a short essay worth 5 and 15
  points.\<close>

theorem earned_rounds_half_to_even_witness:
  "fb_earned (feedback (grade repr_any (fake_questions ''upload'') []) ! 0) = 2 \<and>
   fb_earned (feedback (grade repr_any (fake_questions ''upload'') []) ! 1) = 2 \<and>
   fb_earned
     (feedback
        (grade repr_any
           [\<lparr>prompt = ''Name the concept.'', type = ''short_answer'', options = None,
             answer_key = PNone, points = 1\<rparr>] []) ! 0) = 0 \<and>
   fb_earned
     (feedback
        (grade repr_any
           [\<lparr>prompt = ''Explain.'', type = ''essay'', options = None,
             answer_key = PNone, points = 5\<rparr>]
           [\<lparr>question_index = 0, answer = PStr ''short''\<rparr>]) ! 0) = 2 \<and>
   fb_earned
     (feedback
        (grade repr_any
           [\<lparr>prompt = ''Explain.'', type = ''essay'', options = None,
             answer_key = PNone, points = 15\<rparr>]
           [\<lparr>question_index = 0, answer = PStr ''short''\<rparr>]) ! 0) = 4"
proof -
  have a: "fst (assess repr_any q (find_answer [] j)) = 1 / 2" for q j
    by (simp add: find_answer_def assess_None)
  have l0: "0 < length (fake_questions ''upload'')" and l1: "1 < length (fake_questions ''upload'')"
    by (simp_all add: fake_questions_def)
  have p0: "points (fake_questions ''upload'' ! 0) = 5"
    and p1: "points (fake_questions ''upload'' ! 1) = 3"
    by (simp_all add: fake_questions_def)
  have x: "fb_earned (feedback (grade repr_any (fake_questions ''upload'') []) ! 0) = 2"
    using earned_rounds_half_to_even [OF l0, of repr_any "[]"] a p0 by blast
  have y: "fb_earned (feedback (grade repr_any (fake_questions ''upload'') []) ! 1) = 2"
    using earned_rounds_half_to_even [OF l1, of repr_any "[]"] a p1 by blast
  have "0 < length [\<lparr>prompt = ''Name the concept.'', type = ''short_answer'', options = None,
             answer_key = PNone, points = 1\<rparr>]" by simp
  from earned_rounds_half_to_even [OF this, of repr_any "[]"] a
  have z: "fb_earned
     (feedback
        (grade repr_any
           [\<lparr>prompt = ''Name the concept.'', type = ''short_answer'', options = None,
             answer_key = PNone, points = 1\<rparr>] []) ! 0) = 0"
    by simp
  have s: "fst (assess repr_any
        \<lparr>prompt = ''Explain.'', type = ''essay'', options = None, answer_key = PNone, points = n\<rparr>
        (find_answer [\<lparr>question_index = 0, answer = PStr ''short''\<rparr>] 0)) = fl (3 / 10)" for n
    by (simp add: find_answer_def assess_essay)
  have "0 < length [\<lparr>prompt = ''Explain.'', type = ''essay'', options = None,
             answer_key = PNone, points = 5\<rparr>]" by simp
  from earned_rounds_half_to_even [OF this, of repr_any "[\<lparr>question_index = 0, answer = PStr ''short''\<rparr>]"]
  have u: "fb_earned
     (feedback
        (grade repr_any
           [\<lparr>prompt = ''Explain.'', type = ''essay'', options = None,
             answer_key = PNone, points = 5\<rparr>]
           [\<lparr>question_index = 0, answer = PStr ''short''\<rparr>]) ! 0) = 2"
    using s [of 5] by simp
  have "0 < length [\<lparr>prompt = ''Explain.'', type = ''essay'', options = None,
             answer_key = PNone, points = 15\<rparr>]" by simp
  from earned_rounds_half_to_even [OF this, of repr_any "[\<lparr>question_index = 0, answer = PStr ''short''\<rparr>]"]
  have v: "fb_earned
     (feedback
        (grade repr_any
           [\<lparr>prompt = ''Explain.'', type = ''essay'', options = None,
             answer_key = PNone, points = 15\<rparr>]
           [\<lparr>question_index = 0, answer = PStr ''short''\<rparr>]) ! 0) = 4"
    using s [of 15] by simp
  from x y z u v show ?thesis by simp
qed

text \<open>
  C10, as the code has it. When the points of every question lie between 0 and \<open>2 ^ 53\<close>
  (the integers that convert to a float without rounding), every correctness, as computed
  and as reported, lies in \<open>[0.0, 1.0]\<close>, every earned value lies between 0 and the
  points of its question, and the score lies in \<open>[0.0, 100.0]\<close> whenever
  \<open>total_points > 0\<close>. The bounds of the computed correctness need no assumption.
\<close>

theorem bounded_points_ranges:
  assumes "\<forall>q \<in> set qs. 0 \<le> points q \<and> points q \<le> 2 ^ 53"
  shows "(\<forall>q u. 0 \<le> fst (assess repr q u) \<and> fst (assess repr q u) \<le> 1) \<and>
         (\<forall>it \<in> set (feedback (grade repr qs ans)).
            0 \<le> fb_correctness it \<and> fb_correctness it \<le> 1 \<and>
            0 \<le> fb_earned it \<and> fb_earned it \<le> fb_points it) \<and>
         (0 < total_points (grade repr qs ans) \<longrightarrow>
            0 \<le> score (grade repr qs ans) \<and> score (grade repr qs ans) \<le> 100)"
  using assess_range feedback_item_range [OF assms] score_range [OF assms] by blast

text \<open>The questions of the upload stub, unanswered.\<close>

theorem bounded_points_ranges_witness:
  "0 \<le> fb_earned (feedback (grade repr_any (fake_questions ''upload'') []) ! 0) \<and>
   fb_earned (feedback (grade repr_any (fake_questions ''upload'') []) ! 0) \<le>
     fb_points (feedback (grade repr_any (fake_questions ''upload'') []) ! 0) \<and>
   0 \<le> fb_correctness (feedback (grade repr_any (fake_questions ''upload'') []) ! 0) \<and>
   fb_correctness (feedback (grade repr_any (fake_questions ''upload'') []) ! 0) \<le> 1 \<and>
   0 \<le> score (grade repr_any (fake_questions ''upload'') []) \<and>
   score (grade repr_any (fake_questions ''upload'') []) \<le> 100"
proof -
  have h: "\<forall>q \<in> set (fake_questions ''upload''). 0 \<le> points q \<and> points q \<le> 2 ^ 53"
    by (simp add: fake_questions_def)
  have "0 < length (feedback (grade repr_any (fake_questions ''upload'') []))"
    by (simp add: length_feedback fake_questions_def)
  then have m: "feedback (grade repr_any (fake_questions ''upload'') []) ! 0 \<in>
      set (feedback (grade repr_any (fake_questions ''upload'') []))"
    by (rule nth_mem)
  have t: "0 < total_points (grade repr_any (fake_questions ''upload'') [])"
    by (simp add: total_points_grade fake_questions_def)
  from bounded_points_ranges [OF h, of repr_any "[]"] m t show ?thesis by blast
qed

text \<open>
  C10 as stated covers all non-negative points. A question worth \<open>2 ^ 53 + 3\<close> points,
  answered correctly, earns \<open>2 ^ 53 + 4\<close>: the conversion of the points to a float rounds
  up.
\<close>

theorem large_points_counterexample:
  "fb_points
     (feedback
        (grade repr_any
           [\<lparr>prompt = ''Which option best matches the definition?'',
             type = ''multiple_choice'', options = None, answer_key = PInt 1,
             points = 9007199254740995\<rparr>]
           [\<lparr>question_index = 0, answer = PInt 1\<rparr>]) ! 0) = 9007199254740995 \<and>
   fb_earned
     (feedback
        (grade repr_any
           [\<lparr>prompt = ''Which option best matches the definition?'',
             type = ''multiple_choice'', options = None, answer_key = PInt 1,
             points = 9007199254740995\<rparr>]
           [\<lparr>question_index = 0, answer = PInt 1\<rparr>]) ! 0) = 9007199254740996 \<and>
   \<not> fb_earned
     (feedback
        (grade repr_any
           [\<lparr>prompt = ''Which option best matches the definition?'',
             type = ''multiple_choice'', options = None, answer_key = PInt 1,
             points = 9007199254740995\<rparr>]
           [\<lparr>question_index = 0, answer = PInt 1\<rparr>]) ! 0) \<le>
     fb_points
     (feedback
        (grade repr_any
           [\<lparr>prompt = ''Which option best matches the definition?'',
             type = ''multiple_choice'', options = None, answer_key = PInt 1,
             points = 9007199254740995\<rparr>]
           [\<lparr>question_index = 0, answer = PInt 1\<rparr>]) ! 0)"
  by (simp add: feedback_nth grade_question_fields find_answer_def assess_multiple_choice
      large_product)

end
